theory Spec2Isabelle
  imports Main
begin

unbundle bit_operations_syntax

section \<open>The transport collaborator\<close>

text \<open>
  Both source files are mixins over a client object. The client offers
  \<^verbatim>\<open>self.endpoint\<close>, \<^verbatim>\<open>self.request(method, url, headers, data)\<close> and
  \<^verbatim>\<open>self.ocs_query(method, sub, data)\<close>; none of the three is defined in the two
  files, so they are parameters of the model. Keyword arguments that a call
  leaves out are \<open>None\<close>. The fields \<open>http_method\<close> and \<open>ocs_method\<close> are the
  keyword argument \<^verbatim>\<open>method\<close> of the two calls.
\<close>

datatype pyval = PyStr string | PyInt int | PyBool bool

record http_request =
  http_method :: string
  url :: string
  headers :: "(string \<times> string) list option"
  data :: "(string \<times> pyval) list option"

text \<open>
  A response exposes \<^verbatim>\<open>status_code\<close> and \<^verbatim>\<open>json()\<close>. The value of \<^verbatim>\<open>json()\<close> is
  whatever the collaborator's decoder yields; its type is left open.
\<close>

record 'j response =
  status_code :: int
  json :: 'j

record ocs_args =
  ocs_method :: string
  sub :: string
  ocs_data :: "(string \<times> pyval) list option"

datatype event = Request http_request | Query ocs_args | Sleep int

text \<open>
  What the code observes of its surroundings while it runs: the reply to the
  \<open>i\<close>-th request it issues (counted from 0), the wall-clock time that passes
  during that request, and the wall-clock time that passes during the \<open>k\<close>-th
  call of \<^verbatim>\<open>asyncio.sleep\<close>. Times are in microseconds, the resolution of
  \<^verbatim>\<open>datetime\<close>. The reply of \<^verbatim>\<open>ocs_query\<close> may depend on
  everything the client did before, so it is a function of the log of earlier
  events and of the query.
\<close>

record 'j transport =
  respond :: "nat \<Rightarrow> http_request \<Rightarrow> 'j response"
  latency :: "nat \<Rightarrow> int"
  nap :: "nat \<Rightarrow> int"
  ocs_reply :: "event list \<Rightarrow> ocs_args \<Rightarrow> 'j"

record world =
  now :: int
  requests :: nat
  sleeps :: nat
  log :: "event list"

definition idle :: "int \<Rightarrow> world" where
  "idle t0 = \<lparr>now = t0, requests = 0, sleeps = 0, log = []\<rparr>"

definition request :: "'j transport \<Rightarrow> http_request \<Rightarrow> world \<Rightarrow> 'j response \<times> world" where
  "request env rq w =
     (respond env (requests w) rq,
      w\<lparr>now := now w + latency env (requests w),
        requests := Suc (requests w),
        log := log w @ [Request rq]\<rparr>)"

definition sleep :: "'j transport \<Rightarrow> int \<Rightarrow> world \<Rightarrow> world" where
  "sleep env secs w =
     w\<lparr>now := now w + nap env (sleeps w),
       sleeps := Suc (sleeps w),
       log := log w @ [Sleep secs]\<rparr>"

definition ocs_query ::
  "'j transport \<Rightarrow> string \<Rightarrow> string \<Rightarrow> (string \<times> pyval) list option \<Rightarrow> world
     \<Rightarrow> 'j \<times> world" where
  "ocs_query env m s d w =
     (let q = \<lparr>ocs_method = m, sub = s, ocs_data = d\<rparr>
      in (ocs_reply env (log w) q, w\<lparr>log := log w @ [Query q]\<rparr>))"

text \<open>
  \<^verbatim>\<open>timedelta.seconds\<close> of a difference of \<open>us\<close> microseconds. Python normalises a
  timedelta to days, seconds in \<open>[0, 86400)\<close> and microseconds in
  \<open>[0, 1000000)\<close>, with floor division; \<^verbatim>\<open>.seconds\<close> is the middle component.
\<close>

definition seconds :: "int \<Rightarrow> int" where
  "seconds us = (us div 1000000) mod 86400"

section \<open>loginflow.py\<close>

datatype error = NextCloudLoginFlowTimeout

datatype 'j outcome = Returned 'j | Raised error

definition initiate_request :: "string \<Rightarrow> string \<Rightarrow> string option \<Rightarrow> http_request" where
  "initiate_request endpoint VERSION user_agent =
     \<lparr>http_method = ''POST'',
      url = endpoint @ ''/index.php/login/v2'',
      headers = Some [(''user-agent'',
         (case user_agent of None \<Rightarrow> ''nextcloud_aio/'' @ VERSION | Some ua \<Rightarrow> ua))],
      data = None\<rparr>"

definition login_flow_initiate ::
  "'j transport \<Rightarrow> string \<Rightarrow> string \<Rightarrow> string option \<Rightarrow> world \<Rightarrow> 'j \<times> world" where
  "login_flow_initiate env endpoint VERSION user_agent w =
     (let (response, w1) = request env (initiate_request endpoint VERSION user_agent) w
      in (json response, w1))"

definition poll_request :: "string \<Rightarrow> string \<Rightarrow> http_request" where
  "poll_request endpoint token =
     \<lparr>http_method = ''POST'',
      url = endpoint @ ''/index.php/login/v2/poll'',
      headers = None,
      data = Some [(''token'', PyStr token)]\<rparr>"

text \<open>
  The \<^verbatim>\<open>while\<close> loop of \<^verbatim>\<open>login_flow_wait_confirm\<close>, over its three changing
  variables \<^verbatim>\<open>response\<close>, \<^verbatim>\<open>running_time\<close> and the outside world. It need not
  terminate, so not returning is the value \<open>None\<close>.
\<close>

partial_function (option) poll_loop ::
  "'j transport \<Rightarrow> string \<Rightarrow> string \<Rightarrow> int \<Rightarrow> int \<Rightarrow> 'j response \<Rightarrow> int \<Rightarrow> world
     \<Rightarrow> ('j response \<times> int \<times> world) option" where
  "poll_loop env endpoint token timeout start_dt response running_time w =
     (if status_code response = 404 \<and> running_time < timeout then
        (let rw = request env (poll_request endpoint token) w;
             running_time' = seconds (now (snd rw) - start_dt);
             w2 = sleep env 1 (snd rw)
         in poll_loop env endpoint token timeout start_dt (fst rw) running_time' w2)
      else Some (response, running_time, w))"

declare poll_loop.simps [code]

definition login_flow_wait_confirm ::
  "'j transport \<Rightarrow> string \<Rightarrow> string \<Rightarrow> int \<Rightarrow> world \<Rightarrow> ('j outcome \<times> world) option" where
  "login_flow_wait_confirm env endpoint token timeout w =
     (let start_dt = now w;
          running_time = 0;
          rw = request env (poll_request endpoint token) w
      in case poll_loop env endpoint token timeout start_dt (fst rw) running_time (snd rw) of
           None \<Rightarrow> None
         | Some (response, running_time', w') \<Rightarrow>
             if status_code response = 404 then Some (Raised NextCloudLoginFlowTimeout, w')
             else Some (Returned (json response), w'))"

definition destroy_login_token :: "'j transport \<Rightarrow> world \<Rightarrow> 'j \<times> world" where
  "destroy_login_token env = ocs_query env ''DELETE'' ''/ocs/v2.php/core/apppassword'' None"

section \<open>ocs/groupfolders.py\<close>

subsection \<open>Permissions\<close>

text \<open>
  An instance of the \<^verbatim>\<open>IntFlag\<close> class \<^verbatim>\<open>Permissions\<close> is determined by its integer
  \<^verbatim>\<open>.value\<close>; the class body names five of them.
\<close>

datatype Permissions = Permissions int

fun int_value :: "Permissions \<Rightarrow> int" where
  "int_value (Permissions v) = v"

definition read :: Permissions where "read = Permissions 1"
definition update :: Permissions where "update = Permissions 2"
definition create :: Permissions where "create = Permissions 4"
definition delete :: Permissions where "delete = Permissions 8"
definition share :: Permissions where "share = Permissions 16"

definition members :: "Permissions list" where
  "members = [read, update, create, delete, share]"

text \<open>The operator \<^verbatim>\<open>|\<close> of two flags, and the membership test \<^verbatim>\<open>m in p\<close>.\<close>

definition por :: "Permissions \<Rightarrow> Permissions \<Rightarrow> Permissions" where
  "por a b = Permissions (int_value a OR int_value b)"

definition contains :: "Permissions \<Rightarrow> Permissions \<Rightarrow> bool" where
  "contains p m \<longleftrightarrow> int_value m AND int_value p = int_value m"

definition permission_set :: "Permissions \<Rightarrow> Permissions set" where
  "permission_set p = {m \<in> set members. contains p m}"

text \<open>\<^verbatim>\<open>a | b | ...\<close> over a list of flags, starting from the empty flag.\<close>

definition combine :: "Permissions list \<Rightarrow> Permissions" where
  "combine ms = foldl por (Permissions 0) ms"

subsection \<open>Formatting an integer in an f-string\<close>

definition digit_char :: "nat \<Rightarrow> char" where
  "digit_char d = ''0123456789'' ! d"

fun str_nat :: "nat \<Rightarrow> string" where
  "str_nat n = (if n < 10 then [digit_char n] else str_nat (n div 10) @ [digit_char (n mod 10)])"

declare str_nat.simps [simp del]

definition str_int :: "int \<Rightarrow> string" where
  "str_int i = (if i < 0 then CHR ''-'' # str_nat (nat (- i)) else str_nat (nat i))"

subsection \<open>GroupFolderManager\<close>

definition get_all_group_folders :: "'j transport \<Rightarrow> world \<Rightarrow> 'j \<times> world" where
  "get_all_group_folders env = ocs_query env ''GET'' ''/apps/groupfolders/folders'' None"

definition create_group_folder :: "'j transport \<Rightarrow> string \<Rightarrow> world \<Rightarrow> 'j \<times> world" where
  "create_group_folder env path =
     ocs_query env ''POST'' ''/apps/groupfolders/folders'' (Some [(''mountpoint'', PyStr path)])"

definition get_group_folder :: "'j transport \<Rightarrow> int \<Rightarrow> world \<Rightarrow> 'j \<times> world" where
  "get_group_folder env folder_id =
     ocs_query env ''GET'' (''/apps/groupfolders/folders/'' @ str_int folder_id) None"

definition remove_group_folder :: "'j transport \<Rightarrow> int \<Rightarrow> world \<Rightarrow> 'j \<times> world" where
  "remove_group_folder env folder_id =
     ocs_query env ''DELETE'' (''/apps/groupfolders/folders/'' @ str_int folder_id) None"

definition add_group_to_group_folder ::
  "'j transport \<Rightarrow> string \<Rightarrow> int \<Rightarrow> world \<Rightarrow> 'j \<times> world" where
  "add_group_to_group_folder env group_id folder_id =
     ocs_query env ''POST'' (''/apps/groupfolders/folders/'' @ str_int folder_id @ ''/groups'')
       (Some [(''group'', PyStr group_id)])"

definition remove_group_from_group_folder ::
  "'j transport \<Rightarrow> string \<Rightarrow> int \<Rightarrow> world \<Rightarrow> 'j \<times> world" where
  "remove_group_from_group_folder env group_id folder_id =
     ocs_query env ''DELETE''
       (''/apps/groupfolders/folders/'' @ str_int folder_id @ ''/groups/'' @ group_id) None"

definition advanced_permissions :: "'j transport \<Rightarrow> int \<Rightarrow> bool \<Rightarrow> world \<Rightarrow> 'j \<times> world" where
  "advanced_permissions env folder_id enable =
     ocs_query env ''POST'' (''/apps/groupfolders/folders/'' @ str_int folder_id @ ''/acl'')
       (Some [(''acl'', PyInt (if enable then 1 else 0))])"

definition enable_group_folder_advanced_permissions ::
  "'j transport \<Rightarrow> int \<Rightarrow> world \<Rightarrow> 'j \<times> world" where
  "enable_group_folder_advanced_permissions env folder_id =
     advanced_permissions env folder_id True"

definition disable_group_folder_advanced_permissions ::
  "'j transport \<Rightarrow> int \<Rightarrow> world \<Rightarrow> 'j \<times> world" where
  "disable_group_folder_advanced_permissions env folder_id =
     advanced_permissions env folder_id False"

definition advanced_permissions_admin ::
  "'j transport \<Rightarrow> int \<Rightarrow> string \<Rightarrow> string \<Rightarrow> bool \<Rightarrow> world \<Rightarrow> 'j \<times> world" where
  "advanced_permissions_admin env folder_id object_id object_type manage_acl =
     ocs_query env ''POST'' (''/apps/groupfolders/folders/'' @ str_int folder_id @ ''/manageACL'')
       (Some [(''mappingId'', PyStr object_id),
              (''mappingType'', PyStr object_type),
              (''manageAcl'', PyBool manage_acl)])"

definition add_group_folder_advanced_permissions ::
  "'j transport \<Rightarrow> int \<Rightarrow> string \<Rightarrow> string \<Rightarrow> world \<Rightarrow> 'j \<times> world" where
  "add_group_folder_advanced_permissions env folder_id object_id object_type =
     advanced_permissions_admin env folder_id object_id object_type True"

definition remove_group_folder_advanced_permissions ::
  "'j transport \<Rightarrow> int \<Rightarrow> string \<Rightarrow> string \<Rightarrow> world \<Rightarrow> 'j \<times> world" where
  "remove_group_folder_advanced_permissions env folder_id object_id object_type =
     advanced_permissions_admin env folder_id object_id object_type False"

definition set_group_folder_permissions ::
  "'j transport \<Rightarrow> int \<Rightarrow> string \<Rightarrow> Permissions \<Rightarrow> world \<Rightarrow> 'j \<times> world" where
  "set_group_folder_permissions env folder_id group_id permissions =
     ocs_query env ''POST''
       (''/apps/groupfolders/folders/'' @ str_int folder_id @ ''/groups/'' @ group_id)
       (Some [(''permissions'', PyInt (int_value permissions))])"

definition set_group_folder_quota :: "'j transport \<Rightarrow> int \<Rightarrow> int \<Rightarrow> world \<Rightarrow> 'j \<times> world" where
  "set_group_folder_quota env folder_id quota =
     ocs_query env ''POST'' (''/apps/groupfolders/folders/'' @ str_int folder_id @ ''/quota'')
       (Some [(''quota'', PyInt quota)])"

definition rename_group_folder :: "'j transport \<Rightarrow> int \<Rightarrow> string \<Rightarrow> world \<Rightarrow> 'j \<times> world" where
  "rename_group_folder env folder_id mountpoint =
     ocs_query env ''POST'' (''/apps/groupfolders/folders/'' @ str_int folder_id @ ''/mountpoint'')
       (Some [(''mountpoint'', PyStr mountpoint)])"

section \<open>Observations used to state the properties\<close>

text \<open>
  \<open>issues result env w m p body\<close>: the call that produced \<open>result\<close> from the world
  \<open>w\<close> did nothing but send the single structured query with method \<open>m\<close>, sub-path
  \<open>p\<close> and body \<open>body\<close>, and returned the reply to it.
\<close>

definition issues :: "'j \<times> world \<Rightarrow> 'j transport \<Rightarrow> world \<Rightarrow> string \<Rightarrow> string \<Rightarrow> (string \<times> pyval) list option \<Rightarrow> bool" where
  "issues result env w m p body \<longleftrightarrow>
     result = (ocs_reply env (log w) \<lparr>ocs_method = m, sub = p, ocs_data = body\<rparr>,
               w\<lparr>log := log w @ [Query \<lparr>ocs_method = m, sub = p, ocs_data = body\<rparr>]\<rparr>)"

text \<open>
  The number of poll requests a run has put on the event log.
\<close>

fun is_request :: "event \<Rightarrow> bool" where
  "is_request (Request rq) = True"
| "is_request (Query q) = False"
| "is_request (Sleep secs) = False"

definition polls :: "world \<Rightarrow> nat" where
  "polls w = length (filter is_request (log w))"

text \<open>
  The wall-clock time, in microseconds since \<^verbatim>\<open>start_dt\<close> was taken, at which
  \<^verbatim>\<open>login_flow_wait_confirm\<close> evaluates its loop condition for the \<open>(j+1)\<close>-th
  time when it starts in an idle world: the first request has returned, and each
  earlier pass of the loop has added one request and one sleep.
\<close>

fun elapsed_at_check :: "'j transport \<Rightarrow> nat \<Rightarrow> int" where
  "elapsed_at_check env 0 = latency env 0"
| "elapsed_at_check env (Suc j) = elapsed_at_check env j + latency env (Suc j) + nap env j"

text \<open>
  The value of \<^verbatim>\<open>running_time\<close>, the elapsed time that the loop compares with the
  timeout, when \<^verbatim>\<open>login_flow_wait_confirm\<close> evaluates its loop condition for the
  \<open>(j+1)\<close>-th time after starting in an idle world: 0 at first, and afterwards the
  \<^verbatim>\<open>.seconds\<close> of the time that had elapsed when the request of the last pass
  returned.
\<close>

fun running_time_at :: "'j transport \<Rightarrow> nat \<Rightarrow> int" where
  "running_time_at env 0 = 0"
| "running_time_at env (Suc j) = seconds (elapsed_at_check env j + latency env (Suc j))"

text \<open>
  A scripted surrounding for concrete runs: the \<open>i\<close>-th reply has the \<open>i\<close>-th status
  code of \<open>codes\<close> and 404 once the list is used up, and its parsed body is the
  number \<open>i\<close>; every request takes \<open>lat\<close> microseconds; the \<open>k\<close>-th sleep takes the
  \<open>k\<close>-th entry of \<open>naps\<close> and one second once that list is used up.
\<close>

definition scripted :: "int list \<Rightarrow> int \<Rightarrow> int list \<Rightarrow> nat transport" where
  "scripted codes lat naps =
     \<lparr>respond = (\<lambda>i rq. \<lparr>status_code = (if i < length codes then codes ! i else 404), json = i\<rparr>),
      latency = (\<lambda>i. lat),
      nap = (\<lambda>k. if k < length naps then naps ! k else 1000000),
      ocs_reply = (\<lambda>l q. 0)\<rparr>"

section \<open>The polling loop\<close>

lemma poll_loop_exit:
  "\<not> (status_code response = 404 \<and> running_time < timeout) \<Longrightarrow>
   poll_loop env endpoint token timeout start_dt response running_time w =
     Some (response, running_time, w)"
  by (subst poll_loop.simps) auto

lemma poll_loop_step:
  "status_code response = 404 \<Longrightarrow> running_time < timeout \<Longrightarrow>
   poll_loop env endpoint token timeout start_dt response running_time w =
     poll_loop env endpoint token timeout start_dt
       (fst (request env (poll_request endpoint token) w))
       (seconds (now (snd (request env (poll_request endpoint token) w)) - start_dt))
       (sleep env 1 (snd (request env (poll_request endpoint token) w)))"
  by (subst poll_loop.simps) (simp add: Let_def)

lemma request_simps:
  "fst (request env rq w) = respond env (requests w) rq"
  "now (snd (request env rq w)) = now w + latency env (requests w)"
  "requests (snd (request env rq w)) = Suc (requests w)"
  "sleeps (snd (request env rq w)) = sleeps w"
  "log (snd (request env rq w)) = log w @ [Request rq]"
  by (simp_all add: request_def)

lemma sleep_simps:
  "now (sleep env secs w) = now w + nap env (sleeps w)"
  "requests (sleep env secs w) = requests w"
  "sleeps (sleep env secs w) = Suc (sleeps w)"
  "log (sleep env secs w) = log w @ [Sleep secs]"
  by (simp_all add: sleep_def)

lemma poll_loop_sound:
  assumes "poll_loop env endpoint token timeout start_dt r rt w = Some y"
    and "0 < requests w"
    and "r = respond env (requests w - 1) (poll_request endpoint token)"
  shows "0 < requests (snd (snd y))
    \<and> fst y = respond env (requests (snd (snd y)) - 1) (poll_request endpoint token)
    \<and> requests w \<le> requests (snd (snd y))
    \<and> (\<forall>i. requests w \<le> Suc i \<and> Suc i < requests (snd (snd y)) \<longrightarrow>
           status_code (respond env i (poll_request endpoint token)) = 404)
    \<and> (\<exists>suffix. log (snd (snd y)) = log w @ suffix)
    \<and> (status_code (fst y) = 404 \<longrightarrow> timeout \<le> fst (snd y))"
  using assms
proof (induction env endpoint token timeout start_dt r rt w y rule: poll_loop.raw_induct [rotated 1, consumes 1])
  case (1 f env endpoint token timeout start_dt r rt w y)
  let ?rq = "poll_request endpoint token"
  show ?case
  proof (cases "status_code r = 404 \<and> rt < timeout")
    case False
    with "1.hyps" have "y = (r, rt, w)" by auto
    with False "1.prems" show ?thesis by auto
  next
    case True
    let ?w1 = "snd (request env ?rq w)"
    let ?w2 = "sleep env 1 ?w1"
    from True "1.hyps"
    have run: "f env endpoint token timeout start_dt (fst (request env ?rq w))
                 (seconds (now ?w1 - start_dt)) ?w2 = Some y"
      by (simp add: Let_def)
    have p1: "0 < requests ?w2" by (simp add: sleep_simps request_simps)
    have p2: "fst (request env ?rq w) = respond env (requests ?w2 - 1) ?rq"
      by (simp add: sleep_simps request_simps)
    note ih = "1.IH" [OF run p1 p2]
    have rw: "requests ?w2 = Suc (requests w)" by (simp add: sleep_simps request_simps)
    have lg: "log ?w2 = log w @ [Request ?rq, Sleep 1]" by (simp add: sleep_simps request_simps)
    have r404: "status_code (respond env (requests w - 1) ?rq) = 404"
      using True "1.prems"(2) by simp
    have "\<forall>i. requests w \<le> Suc i \<and> Suc i < requests (snd (snd y)) \<longrightarrow>
           status_code (respond env i ?rq) = 404"
    proof (intro allI impI)
      fix i assume a: "requests w \<le> Suc i \<and> Suc i < requests (snd (snd y))"
      show "status_code (respond env i ?rq) = 404"
      proof (cases "requests w = Suc i")
        case True
        then show ?thesis using r404 by simp
      next
        case False
        with a have "requests ?w2 \<le> Suc i" by (simp add: rw)
        with a ih show ?thesis by blast
      qed
    qed
    moreover have "\<exists>suffix. log (snd (snd y)) = log w @ suffix"
      using ih lg by auto
    moreover have "requests w \<le> requests (snd (snd y))" using ih rw by simp
    ultimately show ?thesis using ih by blast
  qed
qed

lemma seconds_bounds: "0 \<le> seconds us" "seconds us < 86400"
  by (simp_all add: seconds_def)

lemma seconds_le: "0 \<le> m \<Longrightarrow> seconds m * 1000000 \<le> m"
proof -
  assume m: "0 \<le> m"
  then have "0 \<le> m div 1000000" by simp
  then have "seconds m \<le> m div 1000000"
    unfolding seconds_def by (rule zmod_le_nonneg_dividend)
  then have "seconds m * 1000000 \<le> (m div 1000000) * 1000000" by simp
  also have "\<dots> \<le> m" by simp
  finally show ?thesis .
qed

lemma seconds_advance:
  assumes "0 \<le> m" "1000000 \<le> d" "d \<le> (86400 - T) * 1000000" "seconds m < T"
  shows "seconds m < seconds (m + d)"
proof -
  define s where "s = m div 1000000"
  define s1 where "s1 = (m + d) div 1000000"
  have "(m + 1000000) div 1000000 \<le> (m + d) div 1000000"
    using assms(2) by (intro zdiv_mono1) simp_all
  then have lo: "s + 1 \<le> s1" by (simp add: s_def s1_def)
  have "(m + d) div 1000000 \<le> (m + (86400 - T) * 1000000) div 1000000"
    using assms(3) by (intro zdiv_mono1) simp_all
  then have hi: "s1 \<le> s + (86400 - T)" by (simp add: s_def s1_def)
  have a: "0 \<le> s mod 86400" "s mod 86400 < T"
    using assms(4) by (simp_all add: seconds_def s_def)
  have "s1 mod 86400 = (s mod 86400 + (s1 - s)) mod 86400"
    by (simp add: mod_add_left_eq)
  also have "\<dots> = s mod 86400 + (s1 - s)"
    using a lo hi by (intro mod_pos_pos_trivial) simp_all
  finally have "s mod 86400 < s1 mod 86400" using lo by simp
  then show ?thesis by (simp add: seconds_def s_def s1_def)
qed

lemma poll_loop_never_returns_aux:
  assumes "poll_loop env endpoint token timeout start_dt r rt w = Some y"
    and "86400 \<le> timeout"
    and "\<forall>i. status_code (respond env i (poll_request endpoint token)) = 404"
    and "status_code r = 404"
    and "rt < 86400"
  shows False
  using assms
proof (induction env endpoint token timeout start_dt r rt w y
    rule: poll_loop.raw_induct [rotated 1, consumes 1])
  case (1 f env endpoint token timeout start_dt r rt w y)
  let ?rq = "poll_request endpoint token"
  from "1.prems" have c: "status_code r = 404 \<and> rt < timeout" by simp
  with "1.hyps" have run: "f env endpoint token timeout start_dt (fst (request env ?rq w))
      (seconds (now (snd (request env ?rq w)) - start_dt)) (sleep env 1 (snd (request env ?rq w)))
      = Some y"
    by (simp add: Let_def)
  have "status_code (fst (request env ?rq w)) = 404"
    using "1.prems"(2) by (simp add: request_simps)
  with "1.IH" [OF run "1.prems"(1) "1.prems"(2)] show ?case
    by (simp add: seconds_bounds)
qed

lemma poll_loop_never_returns:
  assumes "86400 \<le> timeout"
    and "\<forall>i. status_code (respond env i (poll_request endpoint token)) = 404"
    and "status_code r = 404"
    and "rt < 86400"
  shows "poll_loop env endpoint token timeout start_dt r rt w = None"
proof (cases "poll_loop env endpoint token timeout start_dt r rt w")
  case None
  then show ?thesis .
next
  case (Some y)
  from poll_loop_never_returns_aux [OF Some assms] show ?thesis ..
qed

lemma wait_confirm_never_returns:
  assumes "86400 \<le> timeout"
    and "\<forall>i. status_code (respond env i (poll_request endpoint token)) = 404"
  shows "login_flow_wait_confirm env endpoint token timeout w = None"
proof -
  have "poll_loop env endpoint token timeout (now w)
          (fst (request env (poll_request endpoint token) w)) 0
          (snd (request env (poll_request endpoint token) w)) = None"
    using assms by (intro poll_loop_never_returns) (simp_all add: request_simps)
  then show ?thesis by (simp add: login_flow_wait_confirm_def Let_def)
qed

lemma poll_loop_returns:
  assumes lat: "\<forall>i. 0 \<le> latency env i"
    and nap_lo: "\<forall>k. 1000000 \<le> nap env k"
    and adv: "\<forall>i k. nap env k + latency env i \<le> (86400 - timeout) * 1000000"
    and m: "0 \<le> m" "rt = seconds m" "now w = start_dt + m + nap env k"
  shows "\<exists>r' m' k' w'.
     poll_loop env endpoint token timeout start_dt r rt w = Some (r', seconds m', w')
     \<and> 0 \<le> m' \<and> now w' = start_dt + m' + nap env k'
     \<and> \<not> (status_code r' = 404 \<and> seconds m' < timeout)"
  using m
proof (induction "nat (timeout - rt)" arbitrary: r rt w m k rule: less_induct)
  case less
  let ?rq = "poll_request endpoint token"
  show ?case
  proof (cases "status_code r = 404 \<and> rt < timeout")
    case False
    then have "poll_loop env endpoint token timeout start_dt r rt w = Some (r, seconds m, w)"
      using less.prems(2) by (simp add: poll_loop_exit)
    with False less.prems show ?thesis by blast
  next
    case True
    let ?w1 = "snd (request env ?rq w)"
    let ?w2 = "sleep env 1 ?w1"
    let ?d = "nap env k + latency env (requests w)"
    let ?m1 = "m + ?d"
    have d: "1000000 \<le> ?d" "?d \<le> (86400 - timeout) * 1000000"
      using lat nap_lo adv by (simp_all add: add_increasing2)
    have m1: "now ?w1 - start_dt = ?m1" using less.prems(3) by (simp add: request_simps)
    have m1_pos: "0 \<le> ?m1" using less.prems(1) d(1) by simp
    have now2: "now ?w2 = start_dt + ?m1 + nap env (sleeps w)"
      using less.prems(3) by (simp add: sleep_simps request_simps)
    have lt: "seconds m < timeout" using True less.prems(2) by simp
    have "seconds m < seconds ?m1"
      using less.prems(1) d lt by (rule seconds_advance)
    then have dec: "nat (timeout - seconds ?m1) < nat (timeout - rt)"
      using True less.prems(2) by simp
    from less.hyps [OF dec m1_pos refl now2]
    obtain r' m' k' w' where
      "poll_loop env endpoint token timeout start_dt (fst (request env ?rq w)) (seconds ?m1) ?w2
         = Some (r', seconds m', w')"
      "0 \<le> m'" "now w' = start_dt + m' + nap env k'"
      "\<not> (status_code r' = 404 \<and> seconds m' < timeout)"
      by blast
    moreover have "poll_loop env endpoint token timeout start_dt r rt w =
        poll_loop env endpoint token timeout start_dt (fst (request env ?rq w)) (seconds ?m1) ?w2"
      using True by (simp add: poll_loop_step m1)
    ultimately show ?thesis by metis
  qed
qed

lemma polls_simps:
  "polls (snd (request env rq w)) = Suc (polls w)"
  "polls (sleep env secs w) = polls w"
  by (simp_all add: polls_def request_def sleep_def)

lemma poll_loop_polls:
  assumes "poll_loop env endpoint token timeout start_dt r rt w = Some y"
  shows "polls (snd (snd y)) + requests w = polls w + requests (snd (snd y))"
  using assms
proof (induction env endpoint token timeout start_dt r rt w y
    rule: poll_loop.raw_induct [rotated 1, consumes 1])
  case (1 f env endpoint token timeout start_dt r rt w y)
  let ?rq = "poll_request endpoint token"
  show ?case
  proof (cases "status_code r = 404 \<and> rt < timeout")
    case False
    with "1.hyps" have "y = (r, rt, w)" by auto
    then show ?thesis by simp
  next
    case True
    with "1.hyps" have "f env endpoint token timeout start_dt (fst (request env ?rq w))
      (seconds (now (snd (request env ?rq w)) - start_dt)) (sleep env 1 (snd (request env ?rq w)))
      = Some y"
      by (simp add: Let_def)
    from "1.IH" [OF this] show ?thesis
      by (simp add: polls_simps sleep_simps request_simps)
  qed
qed

lemma poll_loop_ideal_clock:
  assumes "poll_loop env endpoint token timeout start_dt r rt w = Some y"
    and "\<forall>i. latency env i = 0"
    and "\<forall>k. nap env k = 1000000"
    and "now w = start_dt + (int (requests w) - 1) * 1000000"
    and "rt = seconds ((int (requests w) - 2) * 1000000)"
  shows "fst (snd y) = seconds ((int (requests (snd (snd y))) - 2) * 1000000)"
  using assms
proof (induction env endpoint token timeout start_dt r rt w y
    rule: poll_loop.raw_induct [rotated 1, consumes 1])
  case (1 f env endpoint token timeout start_dt r rt w y)
  let ?rq = "poll_request endpoint token"
  show ?case
  proof (cases "status_code r = 404 \<and> rt < timeout")
    case False
    with "1.hyps" have "y = (r, rt, w)" by auto
    with "1.prems" show ?thesis by simp
  next
    case True
    let ?w1 = "snd (request env ?rq w)"
    let ?w2 = "sleep env 1 ?w1"
    from True "1.hyps" have run: "f env endpoint token timeout start_dt (fst (request env ?rq w))
      (seconds (now ?w1 - start_dt)) ?w2 = Some y"
      by (simp add: Let_def)
    have a: "now ?w2 = start_dt + (int (requests ?w2) - 1) * 1000000"
      using "1.prems" by (simp add: sleep_simps request_simps algebra_simps)
    have "now ?w1 - start_dt = (int (requests ?w2) - 2) * 1000000"
      using "1.prems" by (simp add: sleep_simps request_simps algebra_simps)
    then have b: "seconds (now ?w1 - start_dt) = seconds ((int (requests ?w2) - 2) * 1000000)"
      by simp
    from "1.IH" [OF run "1.prems"(1) "1.prems"(2) a b] show ?thesis .
  qed
qed

lemma elapsed_at_check_nonneg:
  assumes "\<forall>i. 0 \<le> latency env i" "\<forall>k. 0 \<le> nap env k"
  shows "0 \<le> elapsed_at_check env j"
  using assms by (induction j) simp_all

text \<open>
  On a clock that does not run backward the running time is at most the time that
  has really elapsed when the loop condition is evaluated.
\<close>

lemma running_time_at_le_elapsed:
  assumes "\<forall>i. 0 \<le> latency env i" "\<forall>k. 0 \<le> nap env k"
  shows "running_time_at env j * 1000000 \<le> elapsed_at_check env j"
proof (cases j)
  case 0
  then show ?thesis using assms(1) by simp
next
  case (Suc i)
  let ?M = "elapsed_at_check env i + latency env (Suc i)"
  have "0 \<le> ?M" using elapsed_at_check_nonneg [OF assms, of i] assms(1)
    by (simp add: add_nonneg_nonneg)
  then have "seconds ?M * 1000000 \<le> ?M" by (rule seconds_le)
  also have "\<dots> \<le> elapsed_at_check env (Suc i)" using assms(2) by simp
  finally show ?thesis using Suc by simp
qed


text \<open>
  A reply with a status other than 404 makes the loop return, on any clock: at the
  latest the loop ends when that reply arrives.
\<close>

lemma poll_loop_returns_on_reply:
  assumes pend: "\<forall>i. Suc i < N \<longrightarrow> status_code (respond env i (poll_request endpoint token)) = 404"
    and fin: "status_code (respond env (N - 1) (poll_request endpoint token)) \<noteq> 404"
    and st: "j < N" "requests w = Suc j"
      "r = respond env j (poll_request endpoint token)"
  shows "\<exists>r' rt' w'. poll_loop env endpoint token timeout start_dt r rt w = Some (r', rt', w')
          \<and> (requests w' = N \<and> r' = respond env (N - 1) (poll_request endpoint token)
              \<or> requests w' < N \<and> status_code r' = 404)"
  using st
proof (induction "N - Suc j" arbitrary: j r rt w)
  case 0
  then have j: "j = N - 1" by simp
  then have "status_code r \<noteq> 404" using fin "0.prems" by simp
  then have "poll_loop env endpoint token timeout start_dt r rt w = Some (r, rt, w)"
    by (simp add: poll_loop_exit)
  then show ?case using j "0.prems" by simp
next
  case (Suc n)
  let ?rq = "poll_request endpoint token"
  let ?w1 = "snd (request env ?rq w)"
  let ?w2 = "sleep env 1 ?w1"
  from Suc.hyps(2) have sj: "Suc j < N" by simp
  then have r404: "status_code r = 404" using pend Suc.prems by simp
  show ?case
  proof (cases "rt < timeout")
    case False
    then have "poll_loop env endpoint token timeout start_dt r rt w = Some (r, rt, w)"
      by (simp add: poll_loop_exit)
    then show ?thesis using r404 sj Suc.prems by simp
  next
    case True
    have n: "n = N - Suc (Suc j)" using Suc.hyps(2) by simp
    have "\<exists>r' rt' w'. poll_loop env endpoint token timeout start_dt
            (fst (request env ?rq w)) (seconds (now ?w1 - start_dt)) ?w2 = Some (r', rt', w')
          \<and> (requests w' = N \<and> r' = respond env (N - 1) ?rq
              \<or> requests w' < N \<and> status_code r' = 404)"
      using Suc.prems sj
      by (intro Suc.hyps(1) [OF n]) (simp_all add: sleep_simps request_simps)
    then show ?thesis using r404 True by (simp add: poll_loop_step)
  qed
qed

lemma idle_request_simps:
  "fst (request env rq (idle t0)) = respond env 0 rq"
  "now (snd (request env rq (idle t0))) = t0 + latency env 0"
  "requests (snd (request env rq (idle t0))) = Suc 0"
  "sleeps (snd (request env rq (idle t0))) = 0"
  "polls (snd (request env rq (idle t0))) = Suc 0"
  by (simp_all add: request_def idle_def polls_def)

lemma wait_confirm_sound:
  assumes "login_flow_wait_confirm env endpoint token timeout w = Some (out, w')"
  shows "requests w < requests w'
    \<and> (\<forall>i. requests w \<le> i \<and> Suc i < requests w' \<longrightarrow>
           status_code (respond env i (poll_request endpoint token)) = 404)
    \<and> (\<exists>rest. log w' = log w @ Request (poll_request endpoint token) # rest)
    \<and> out = (if status_code (respond env (requests w' - 1) (poll_request endpoint token)) = 404
              then Raised NextCloudLoginFlowTimeout
              else Returned (json (respond env (requests w' - 1) (poll_request endpoint token))))"
proof -
  let ?rq = "poll_request endpoint token"
  let ?w1 = "snd (request env ?rq w)"
  from assms obtain r' rt' where
    run: "poll_loop env endpoint token timeout (now w) (fst (request env ?rq w)) 0 ?w1
            = Some (r', rt', w')"
    and out: "out = (if status_code r' = 404 then Raised NextCloudLoginFlowTimeout
                     else Returned (json r'))"
    by (auto simp add: login_flow_wait_confirm_def Let_def split: option.splits if_splits)
  have p1: "0 < requests ?w1" by (simp add: request_simps)
  have p2: "fst (request env ?rq w) = respond env (requests ?w1 - 1) ?rq"
    by (simp add: request_simps)
  note s = poll_loop_sound [OF run p1 p2, simplified request_simps, simplified]
  from s have a: "r' = respond env (requests w' - 1) ?rq" by simp
  from s have b: "requests w < requests w'" by simp
  from s have c: "\<forall>i. requests w \<le> i \<and> Suc i < requests w' \<longrightarrow>
           status_code (respond env i ?rq) = 404" by simp
  from s have d: "\<exists>rest. log w' = log w @ Request ?rq # rest" by auto
  from a b c d out show ?thesis by simp
qed

lemmas run_simps = login_flow_wait_confirm_def poll_loop_step poll_loop_exit scripted_def
  idle_def request_def sleep_def seconds_def poll_request_def Let_def

text \<open>
  Within the first day after \<^verbatim>\<open>start_dt\<close> one pass of the loop is: send the poll
  request, take the elapsed time in whole seconds, sleep for one second, and evaluate
  the condition again.
\<close>

lemma poll_loop_pass:
  assumes "status_code r = 404" and "rt < timeout"
    and "0 \<le> now w + latency env (requests w) - start_dt"
    and "now w + latency env (requests w) - start_dt < 86400 * 1000000"
  shows "poll_loop env endpoint token timeout start_dt r rt w =
     poll_loop env endpoint token timeout start_dt
       (respond env (requests w) (poll_request endpoint token))
       ((now w + latency env (requests w) - start_dt) div 1000000)
       \<lparr>now = now w + latency env (requests w) + nap env (sleeps w),
        requests = Suc (requests w),
        sleeps = Suc (sleeps w),
        log = log w @ [Request (poll_request endpoint token), Sleep 1]\<rparr>"
proof -
  let ?e = "now w + latency env (requests w) - start_dt"
  have "0 \<le> ?e div 1000000" using assms(3) by simp
  moreover have "?e div 1000000 < 86400" using assms(4) by simp
  ultimately have "seconds ?e = ?e div 1000000"
    unfolding seconds_def by (rule mod_pos_pos_trivial)
  moreover have "sleep env 1 (snd (request env (poll_request endpoint token) w)) =
      \<lparr>now = now w + latency env (requests w) + nap env (sleeps w),
       requests = Suc (requests w),
       sleeps = Suc (sleeps w),
       log = log w @ [Request (poll_request endpoint token), Sleep 1]\<rparr>"
    by (cases w) (simp add: request_def sleep_def)
  ultimately show ?thesis
    using assms(1,2) by (simp add: poll_loop_step request_simps)
qed

text \<open>
  With a timeout below one day the loop is a bounded retry, whatever the replies are,
  as long as the clock does not run backward, every sleep advances it by at least a
  second, and no sleep plus request takes longer than what is left of the day after
  the timeout.
\<close>

lemma wait_confirm_returns:
  assumes "\<forall>i. 0 \<le> latency env i"
    and "\<forall>k. 1000000 \<le> nap env k"
    and "\<forall>i k. nap env k + latency env i \<le> (86400 - timeout) * 1000000"
  shows "\<exists>res. login_flow_wait_confirm env endpoint token timeout w = Some res"
proof (cases "status_code (respond env (requests w) (poll_request endpoint token)) = 404 \<and> 0 < timeout")
  case False
  then show ?thesis
    by (simp add: login_flow_wait_confirm_def Let_def poll_loop_exit request_simps)
next
  case True
  let ?rq = "poll_request endpoint token"
  let ?w1 = "snd (request env ?rq w)"
  let ?r1 = "fst (request env ?rq ?w1)"
  let ?w2 = "sleep env 1 (snd (request env ?rq ?w1))"
  let ?m1 = "latency env (requests w) + latency env (Suc (requests w))"
  have m1: "now (snd (request env ?rq ?w1)) - now w = ?m1"
    by (simp add: request_simps)
  have step: "poll_loop env endpoint token timeout (now w) (fst (request env ?rq w)) 0 ?w1 =
      poll_loop env endpoint token timeout (now w) ?r1 (seconds ?m1) ?w2"
    using True by (simp add: poll_loop_step request_simps)
  have m1_pos: "0 \<le> ?m1" using assms(1) by (simp add: add_nonneg_nonneg)
  have now2: "now ?w2 = now w + ?m1 + nap env (sleeps w)"
    by (simp add: sleep_simps request_simps)
  from poll_loop_returns [OF assms m1_pos refl now2]
  obtain r' m' w' where
    "poll_loop env endpoint token timeout (now w) ?r1 (seconds ?m1) ?w2 = Some (r', seconds m', w')"
    by blast
  with step show ?thesis
    by (simp add: login_flow_wait_confirm_def Let_def)
qed

section \<open>Properties of login_flow_wait_confirm\<close>

subsection \<open>Replies that are always 404\<close>

text \<open>
  A transport on which every request takes ten seconds: with a timeout of five
  seconds and nothing but 404 replies the call raises the timeout after two poll
  requests, fewer than the six that one request per second of the timeout would
  give.
\<close>

theorem slow_transport_few_polls:
  "login_flow_wait_confirm (scripted [] 10000000 []) ''https://cloud'' ''abc'' 5 (idle 0) =
     Some (Raised NextCloudLoginFlowTimeout,
       \<lparr>now = 21000000, requests = 2, sleeps = 1,
        log = [Request (poll_request ''https://cloud'' ''abc''),
               Request (poll_request ''https://cloud'' ''abc''), Sleep 1]\<rparr>)"
  by (simp add: run_simps)

text \<open>
  Claim C1, as amended. Let \<open>0 \<le> timeout < 86400\<close>, let the clock not run backward,
  let every sleep advance it by at least one second, and let no sleep plus request
  take longer than \<open>86400 - timeout\<close> seconds. If every poll reply has status 404,
  the call raises \<^verbatim>\<open>NextCloudLoginFlowTimeout\<close>, and at that moment at least
  \<open>timeout\<close> seconds have elapsed since the start. If moreover requests take no clock
  time and every sleep advances the clock by exactly one second, at least
  \<open>timeout + 1\<close> poll requests have been issued.
\<close>

theorem pending_forever_times_out:
  assumes "0 \<le> timeout" and "timeout < 86400"
    and "\<forall>i. status_code (respond env i (poll_request endpoint token)) = 404"
    and "\<forall>i. 0 \<le> latency env i"
    and "\<forall>k. 1000000 \<le> nap env k"
    and "\<forall>i k. nap env k + latency env i \<le> (86400 - timeout) * 1000000"
  shows "\<exists>w'. login_flow_wait_confirm env endpoint token timeout (idle t0) =
            Some (Raised NextCloudLoginFlowTimeout, w')
          \<and> timeout * 1000000 \<le> now w' - t0
          \<and> ((\<forall>i. latency env i = 0) \<and> (\<forall>k. nap env k = 1000000) \<longrightarrow>
                timeout + 1 \<le> int (polls w'))"
proof (cases "timeout = 0")
  case True
  let ?rq = "poll_request endpoint token"
  let ?w1 = "snd (request env ?rq (idle t0))"
  have "login_flow_wait_confirm env endpoint token timeout (idle t0) =
          Some (Raised NextCloudLoginFlowTimeout, ?w1)"
    using True assms(3)
    by (simp add: login_flow_wait_confirm_def Let_def poll_loop_exit idle_request_simps)
  moreover have "timeout * 1000000 \<le> now ?w1 - t0"
    using True assms(4) by (simp add: idle_request_simps)
  moreover have "timeout + 1 \<le> int (polls ?w1)"
    using True by (simp add: idle_request_simps)
  ultimately show ?thesis by blast
next
  case False
  with assms(1) have pos: "0 < timeout" by simp
  let ?rq = "poll_request endpoint token"
  let ?w1 = "snd (request env ?rq (idle t0))"
  let ?r1 = "fst (request env ?rq ?w1)"
  let ?w2 = "sleep env 1 (snd (request env ?rq ?w1))"
  let ?m1 = "latency env 0 + latency env (Suc 0)"
  have m1: "now (snd (request env ?rq ?w1)) - t0 = ?m1"
    by (simp add: request_simps idle_request_simps idle_def)
  have step: "poll_loop env endpoint token timeout t0 (fst (request env ?rq (idle t0))) 0 ?w1 =
      poll_loop env endpoint token timeout t0 ?r1 (seconds ?m1) ?w2"
    using pos assms(3) by (simp add: poll_loop_step idle_request_simps m1)
  have m1_pos: "0 \<le> ?m1" using assms(4) by (simp add: add_nonneg_nonneg)
  have now2: "now ?w2 = t0 + ?m1 + nap env 0"
    by (simp add: sleep_simps request_simps idle_request_simps idle_def)
  from poll_loop_returns [OF assms(4) assms(5) assms(6) m1_pos refl now2]
  obtain r' m' k' w' where
    run: "poll_loop env endpoint token timeout t0 ?r1 (seconds ?m1) ?w2 = Some (r', seconds m', w')"
    and m': "0 \<le> m'" and now': "now w' = t0 + m' + nap env k'"
    and ex: "\<not> (status_code r' = 404 \<and> seconds m' < timeout)"
    by blast
  have p1: "0 < requests ?w2" by (simp add: sleep_simps request_simps)
  have p2: "?r1 = respond env (requests ?w2 - 1) ?rq" by (simp add: sleep_simps request_simps)
  from poll_loop_sound [OF run p1 p2]
  have r': "r' = respond env (requests w' - 1) ?rq" and two: "requests ?w2 \<le> requests w'"
    by simp_all
  from r' assms(3) have s404: "status_code r' = 404" by simp
  with ex have le: "timeout \<le> seconds m'" by simp
  have out: "login_flow_wait_confirm env endpoint token timeout (idle t0) =
          Some (Raised NextCloudLoginFlowTimeout, w')"
    using step run s404 by (simp add: login_flow_wait_confirm_def Let_def idle_def)
  have "timeout * 1000000 \<le> seconds m' * 1000000" using le by simp
  also have "\<dots> \<le> m'" using m' by (rule seconds_le)
  also have "\<dots> \<le> now w' - t0"
  proof -
    from assms(5) have "1000000 \<le> nap env k'" by blast
    then show ?thesis using now' by simp
  qed
  finally have elapsed: "timeout * 1000000 \<le> now w' - t0" .
  have count: "timeout + 1 \<le> int (polls w')"
    if ideal: "(\<forall>i. latency env i = 0) \<and> (\<forall>k. nap env k = 1000000)"
  proof -
    from ideal have l0: "\<forall>i. latency env i = 0" and n1: "\<forall>k. nap env k = 1000000" by simp_all
    have a: "now ?w2 = t0 + (int (requests ?w2) - 1) * 1000000"
      using l0 n1 by (simp add: sleep_simps request_simps idle_request_simps idle_def)
    have b: "seconds ?m1 = seconds ((int (requests ?w2) - 2) * 1000000)"
      using l0 by (simp add: sleep_simps request_simps idle_request_simps idle_def)
    from poll_loop_ideal_clock [OF run l0 n1 a b]
    have "seconds m' = seconds ((int (requests w') - 2) * 1000000)" by simp
    also have "\<dots> = (int (requests w') - 2) mod 86400" by (simp add: seconds_def)
    also have "\<dots> \<le> int (requests w') - 2"
      using two by (intro zmod_le_nonneg_dividend) (simp add: sleep_simps request_simps idle_request_simps idle_def)
    finally have "timeout + 2 \<le> int (requests w')" using le by simp
    moreover from poll_loop_polls [OF run] have "polls w' = requests w'"
      by (simp add: polls_simps sleep_simps request_simps idle_def) (simp add: polls_def)
    ultimately show ?thesis by simp
  qed
  from out elapsed count show ?thesis by blast
qed

theorem pending_forever_times_out_witness:
  "(0::int) \<le> 3 \<and> (3::int) < 86400
   \<and> (\<forall>i. status_code (respond (scripted [] 0 []) i (poll_request ''https://cloud'' ''abc'')) = 404)
   \<and> (\<forall>i. 0 \<le> latency (scripted [] 0 []) i)
   \<and> (\<forall>k. 1000000 \<le> nap (scripted [] 0 []) k)
   \<and> (\<forall>i k. nap (scripted [] 0 []) k + latency (scripted [] 0 []) i
          \<le> (86400 - 3) * 1000000)
   \<and> (\<forall>i. latency (scripted [] 0 []) i = 0) \<and> (\<forall>k. nap (scripted [] 0 []) k = 1000000)
   \<and> (\<exists>w'. login_flow_wait_confirm (scripted [] 0 []) ''https://cloud'' ''abc'' 3 (idle 0) =
            Some (Raised NextCloudLoginFlowTimeout, w')
          \<and> 3 * 1000000 \<le> now w' - 0
          \<and> 3 + 1 \<le> int (polls w'))"
proof -
  let ?env = "scripted [] 0 []"
  have h: "(0::int) \<le> 3" "(3::int) < 86400"
    "\<forall>i. status_code (respond ?env i (poll_request ''https://cloud'' ''abc'')) = 404"
    "\<forall>i. 0 \<le> latency ?env i"
    "\<forall>k. 1000000 \<le> nap ?env k"
    "\<forall>i k. nap ?env k + latency ?env i \<le> (86400 - 3) * 1000000"
    by (simp_all add: scripted_def)
  have i: "(\<forall>i. latency ?env i = 0) \<and> (\<forall>k. nap ?env k = 1000000)"
    by (simp add: scripted_def)
  from pending_forever_times_out [OF h, of 0] h i show ?thesis by simp
qed

text \<open>
  Claim C7 at a timeout of one day: \<^verbatim>\<open>timedelta.seconds\<close> never reaches 86400, so with
  404 replies throughout and a clock that every sleep advances by one second the
  call never returns.
\<close>

theorem wait_confirm_day_timeout_diverges:
  "login_flow_wait_confirm (scripted [] 0 []) ''https://cloud'' ''abc'' 86400 (idle 0) = None"
  by (rule wait_confirm_never_returns) (simp_all add: scripted_def)

subsection \<open>The measured running time\<close>

text \<open>
  Claim C4 on a run whose first sleep lasts a day and three seconds, as when the
  machine is suspended: after the next poll the running time is recomputed as 3, not
  as the 86403 whole seconds that have elapsed, so with a timeout of ten seconds the
  loop polls once more and the call returns the body of the fourth reply instead of
  timing out after the third.
\<close>

theorem seconds_wrap_keeps_polling:
  "login_flow_wait_confirm (scripted [404, 404, 404, 200] 0 [86403000000])
       ''https://cloud'' ''abc'' 10 (idle 0) =
     Some (Returned 3,
       \<lparr>now = 86405000000, requests = 4, sleeps = 3,
        log = [Request (poll_request ''https://cloud'' ''abc''),
               Request (poll_request ''https://cloud'' ''abc''), Sleep 1,
               Request (poll_request ''https://cloud'' ''abc''), Sleep 1,
               Request (poll_request ''https://cloud'' ''abc''), Sleep 1]\<rparr>)"
  by (simp add: run_simps)

subsection \<open>Runs that return\<close>



text \<open>
  A reply with status 503 after one 404: the call returns its parsed body as an
  ordinary result; no error is raised.
\<close>

theorem server_error_returned_as_result:
  "login_flow_wait_confirm (scripted [404, 503] 0 []) ''https://cloud'' ''abc'' 60 (idle 0) =
     Some (Returned 1,
       \<lparr>now = 1000000, requests = 2, sleeps = 1,
        log = [Request (poll_request ''https://cloud'' ''abc''),
               Request (poll_request ''https://cloud'' ''abc''), Sleep 1]\<rparr>)"
  by (simp add: run_simps)

text \<open>
  Claim C3, as amended. Only the 404 reply is retried, and no reply is raised as an
  error. Let the \<open>N\<close>-th poll reply (\<open>N \<ge> 1\<close>) be the first whose status is not 404;
  that status may be any, 2xx or not. Then the call always finishes, and never polls
  again after that reply: either it has issued exactly \<open>N\<close> poll requests and returns
  the parsed body of the \<open>N\<close>-th reply as its result, or it has raised
  \<^verbatim>\<open>NextCloudLoginFlowTimeout\<close> after fewer than \<open>N\<close> poll requests, before that
  reply was asked for.
\<close>

theorem only_404_is_retried:
  assumes "0 < N"
    and "\<forall>i. Suc i < N \<longrightarrow> status_code (respond env i (poll_request endpoint token)) = 404"
    and "status_code (respond env (N - 1) (poll_request endpoint token)) \<noteq> 404"
  shows "\<exists>out w'. login_flow_wait_confirm env endpoint token timeout (idle t0) = Some (out, w')
          \<and> (polls w' = N
                \<and> out = Returned (json (respond env (N - 1) (poll_request endpoint token)))
              \<or> polls w' < N \<and> out = Raised NextCloudLoginFlowTimeout)"
proof -
  let ?rq = "poll_request endpoint token"
  let ?w1 = "snd (request env ?rq (idle t0))"
  have "\<exists>r' rt' w'. poll_loop env endpoint token timeout t0 (fst (request env ?rq (idle t0))) 0 ?w1
            = Some (r', rt', w')
          \<and> (requests w' = N \<and> r' = respond env (N - 1) ?rq
              \<or> requests w' < N \<and> status_code r' = 404)"
    using assms(1)
    by (intro poll_loop_returns_on_reply [OF assms(2) assms(3), of 0])
       (simp_all add: idle_request_simps)
  then obtain r' rt' w' where
    run: "poll_loop env endpoint token timeout t0 (fst (request env ?rq (idle t0))) 0 ?w1
            = Some (r', rt', w')"
    and alt: "requests w' = N \<and> r' = respond env (N - 1) ?rq
              \<or> requests w' < N \<and> status_code r' = 404"
    by blast
  from poll_loop_polls [OF run] have p: "polls w' = requests w'"
    by (simp add: idle_request_simps)
  have out: "login_flow_wait_confirm env endpoint token timeout (idle t0) =
      Some (if status_code r' = 404 then Raised NextCloudLoginFlowTimeout else Returned (json r'), w')"
    using run by (simp add: login_flow_wait_confirm_def Let_def idle_def)
  from alt show ?thesis
  proof
    assume a: "requests w' = N \<and> r' = respond env (N - 1) ?rq"
    with assms(3) have "status_code r' \<noteq> 404" by simp
    with out a p show ?thesis by simp
  next
    assume "requests w' < N \<and> status_code r' = 404"
    with out p show ?thesis by simp
  qed
qed

theorem only_404_is_retried_witness:
  "\<exists>out w'. login_flow_wait_confirm (scripted [404, 503] 0 []) ''https://cloud'' ''abc'' 60 (idle 0)
              = Some (out, w')
          \<and> (polls w' = 2
                \<and> out = Returned (json (respond (scripted [404, 503] 0 []) (2 - 1)
                           (poll_request ''https://cloud'' ''abc'')))
              \<or> polls w' < 2 \<and> out = Raised NextCloudLoginFlowTimeout)"
proof -
  let ?env = "scripted [404, 503] 0 []"
  have h1: "(0::nat) < 2" by simp
  have h2: "\<forall>i. Suc i < 2 \<longrightarrow>
        status_code (respond ?env i (poll_request ''https://cloud'' ''abc'')) = 404"
    by (simp add: scripted_def less_Suc_eq numeral_2_eq_2)
  have h3: "status_code (respond ?env (2 - 1) (poll_request ''https://cloud'' ''abc'')) \<noteq> 404"
    by (simp add: scripted_def)
  from only_404_is_retried [OF h1 h2 h3, of 60 0]
  show ?thesis .
qed

text \<open>
  Claim C5. The first event of every run that returns or raises is a poll request,
  so no sleep precedes it. When the first reply has a status other than 404 the call
  returns its parsed body after that single request, with no sleep at all.
\<close>

theorem first_poll_before_any_sleep:
  "(login_flow_wait_confirm env endpoint token timeout (idle t0) = Some (out, w') \<longrightarrow>
      (\<exists>rest. log w' = Request (poll_request endpoint token) # rest))
   \<and> (status_code (respond env 0 (poll_request endpoint token)) \<noteq> 404 \<longrightarrow>
        login_flow_wait_confirm env endpoint token timeout (idle t0) =
          Some (Returned (json (respond env 0 (poll_request endpoint token))),
            \<lparr>now = t0 + latency env 0, requests = 1, sleeps = 0,
             log = [Request (poll_request endpoint token)]\<rparr>))"
proof (intro conjI impI)
  assume "login_flow_wait_confirm env endpoint token timeout (idle t0) = Some (out, w')"
  from wait_confirm_sound [OF this]
  show "\<exists>rest. log w' = Request (poll_request endpoint token) # rest"
    by (simp add: idle_def)
next
  assume "status_code (respond env 0 (poll_request endpoint token)) \<noteq> 404"
  then show "login_flow_wait_confirm env endpoint token timeout (idle t0) =
          Some (Returned (json (respond env 0 (poll_request endpoint token))),
            \<lparr>now = t0 + latency env 0, requests = 1, sleeps = 0,
             log = [Request (poll_request endpoint token)]\<rparr>)"
    by (simp add: login_flow_wait_confirm_def Let_def poll_loop_exit request_def idle_def)
qed

theorem first_poll_before_any_sleep_witness:
  "status_code (respond (scripted [200] 0 []) 0 (poll_request ''https://cloud'' ''abc'')) \<noteq> 404
   \<and> login_flow_wait_confirm (scripted [200] 0 []) ''https://cloud'' ''abc'' 60 (idle 0) =
       Some (Returned (json (respond (scripted [200] 0 []) 0
                (poll_request ''https://cloud'' ''abc''))),
         \<lparr>now = 0 + latency (scripted [200] 0 []) 0, requests = 1, sleeps = 0,
          log = [Request (poll_request ''https://cloud'' ''abc'')]\<rparr>)
   \<and> (\<exists>rest. log \<lparr>now = 0 + latency (scripted [200] 0 []) 0, requests = 1, sleeps = 0,
                    log = [Request (poll_request ''https://cloud'' ''abc'')]\<rparr> =
          Request (poll_request ''https://cloud'' ''abc'') # rest)"
proof -
  let ?env = "scripted [200] 0 []"
  let ?rq = "poll_request ''https://cloud'' ''abc''"
  let ?w = "\<lparr>now = 0 + latency ?env 0, requests = 1, sleeps = 0, log = [Request ?rq]\<rparr>"
  have h: "status_code (respond ?env 0 ?rq) \<noteq> 404" by (simp add: scripted_def)
  note t = first_poll_before_any_sleep
    [of ?env "''https://cloud''" "''abc''" 60 0 "Returned (json (respond ?env 0 ?rq))" ?w]
  from t h have run: "login_flow_wait_confirm ?env ''https://cloud'' ''abc'' 60 (idle 0) =
       Some (Returned (json (respond ?env 0 ?rq)), ?w)"
    by blast
  with t have "\<exists>rest. log ?w = Request ?rq # rest" by blast
  with h run show ?thesis by blast
qed

text \<open>
  Claim C6. The timeout is raised exactly when the last poll reply has status 404.
  A last reply with another status is returned as the result, whatever the elapsed
  time is by then.
\<close>

theorem timeout_iff_last_response_404:
  assumes "login_flow_wait_confirm env endpoint token timeout w = Some (out, w')"
  shows "(out = Raised NextCloudLoginFlowTimeout \<longleftrightarrow>
            status_code (respond env (requests w' - 1) (poll_request endpoint token)) = 404)
    \<and> (status_code (respond env (requests w' - 1) (poll_request endpoint token)) \<noteq> 404 \<longrightarrow>
          out = Returned (json (respond env (requests w' - 1) (poll_request endpoint token))))"
  using wait_confirm_sound [OF assms] by simp

theorem timeout_iff_last_response_404_witness:
  "login_flow_wait_confirm (scripted [404, 200] 5000000 []) ''https://cloud'' ''abc'' 1 (idle 0) =
     Some (Returned 1,
       \<lparr>now = 11000000, requests = 2, sleeps = 1,
        log = [Request (poll_request ''https://cloud'' ''abc''),
               Request (poll_request ''https://cloud'' ''abc''), Sleep 1]\<rparr>)
   \<and> ((Returned 1 :: nat outcome) = Raised NextCloudLoginFlowTimeout \<longleftrightarrow>
        status_code (respond (scripted [404, 200] 5000000 []) 1 (poll_request ''https://cloud'' ''abc'')) = 404)
   \<and> status_code (respond (scripted [404, 200] 5000000 []) 1 (poll_request ''https://cloud'' ''abc'')) \<noteq> 404
   \<and> (Returned 1 :: nat outcome) =
       Returned (json (respond (scripted [404, 200] 5000000 []) 1 (poll_request ''https://cloud'' ''abc'')))"
proof -
  have run: "login_flow_wait_confirm (scripted [404, 200] 5000000 []) ''https://cloud'' ''abc'' 1 (idle 0) =
     Some (Returned 1,
       \<lparr>now = 11000000, requests = 2, sleeps = 1,
        log = [Request (poll_request ''https://cloud'' ''abc''),
               Request (poll_request ''https://cloud'' ''abc''), Sleep 1]\<rparr>)"
    by (simp add: run_simps)
  have st: "status_code (respond (scripted [404, 200] 5000000 []) 1 (poll_request ''https://cloud'' ''abc'')) = 200"
    by (simp add: scripted_def)
  from timeout_iff_last_response_404 [OF run] st run show ?thesis
    by simp
qed

section \<open>Properties of login_flow_initiate\<close>

text \<open>
  Claim C8. \<^verbatim>\<open>login_flow_initiate\<close> sends exactly one request, a POST to
  \<^verbatim>\<open>/index.php/login/v2\<close> under the endpoint, and returns the parsed body of the
  reply. Without a \<^verbatim>\<open>user_agent\<close> the user-agent header is \<^verbatim>\<open>nextcloud_aio/\<close>
  followed by the version; with one, the header is that label unchanged.
\<close>

theorem login_flow_initiate_request:
  "login_flow_initiate env endpoint VERSION None w =
     (json (respond env (requests w)
        \<lparr>http_method = ''POST'', url = endpoint @ ''/index.php/login/v2'',
         headers = Some [(''user-agent'', ''nextcloud_aio/'' @ VERSION)], data = None\<rparr>),
      w\<lparr>now := now w + latency env (requests w), requests := Suc (requests w),
        log := log w @ [Request
          \<lparr>http_method = ''POST'', url = endpoint @ ''/index.php/login/v2'',
           headers = Some [(''user-agent'', ''nextcloud_aio/'' @ VERSION)], data = None\<rparr>]\<rparr>)
   \<and> login_flow_initiate env endpoint VERSION (Some label) w =
     (json (respond env (requests w)
        \<lparr>http_method = ''POST'', url = endpoint @ ''/index.php/login/v2'',
         headers = Some [(''user-agent'', label)], data = None\<rparr>),
      w\<lparr>now := now w + latency env (requests w), requests := Suc (requests w),
        log := log w @ [Request
          \<lparr>http_method = ''POST'', url = endpoint @ ''/index.php/login/v2'',
           headers = Some [(''user-agent'', label)], data = None\<rparr>]\<rparr>)"
  by (simp add: login_flow_initiate_def request_def initiate_request_def)

section \<open>Properties of GroupFolderManager\<close>

lemma issues_ocs_query: "issues (ocs_query env m p body w) env w m p body"
  by (simp add: issues_def ocs_query_def Let_def)

lemma str_int_5: "str_int 5 = ''5''"
  by (simp add: str_int_def str_nat.simps digit_char_def)

text \<open>
  Claim C9. Every operation of \<^verbatim>\<open>GroupFolderManager\<close> issues exactly one structured
  query, with the method, the path (folder, group and object identifiers
  interpolated) and the body of its row in the table of operations. In particular
  \<^verbatim>\<open>set_group_folder_quota(folder_id=5, quota=-3)\<close> issues a POST to
  \<^verbatim>\<open>/apps/groupfolders/folders/5/quota\<close> with body \<^verbatim>\<open>{"quota": -3}\<close>, and the ACL toggle
  sends \<^verbatim>\<open>{"acl": 1}\<close> to enable and \<^verbatim>\<open>{"acl": 0}\<close> to disable.
\<close>

theorem group_folder_requests:
  "issues (get_all_group_folders env w) env w ''GET'' ''/apps/groupfolders/folders'' None
   \<and> issues (create_group_folder env path w) env w
         ''POST'' ''/apps/groupfolders/folders'' (Some [(''mountpoint'', PyStr path)])
   \<and> issues (get_group_folder env folder_id w) env w
         ''GET'' (''/apps/groupfolders/folders/'' @ str_int folder_id) None
   \<and> issues (remove_group_folder env folder_id w) env w
         ''DELETE'' (''/apps/groupfolders/folders/'' @ str_int folder_id) None
   \<and> issues (add_group_to_group_folder env group_id folder_id w) env w
         ''POST'' (''/apps/groupfolders/folders/'' @ str_int folder_id @ ''/groups'')
         (Some [(''group'', PyStr group_id)])
   \<and> issues (remove_group_from_group_folder env group_id folder_id w) env w
         ''DELETE'' (''/apps/groupfolders/folders/'' @ str_int folder_id @ ''/groups/'' @ group_id)
         None
   \<and> issues (enable_group_folder_advanced_permissions env folder_id w) env w
         ''POST'' (''/apps/groupfolders/folders/'' @ str_int folder_id @ ''/acl'')
         (Some [(''acl'', PyInt 1)])
   \<and> issues (disable_group_folder_advanced_permissions env folder_id w) env w
         ''POST'' (''/apps/groupfolders/folders/'' @ str_int folder_id @ ''/acl'')
         (Some [(''acl'', PyInt 0)])
   \<and> issues (add_group_folder_advanced_permissions env folder_id object_id object_type w) env w
         ''POST'' (''/apps/groupfolders/folders/'' @ str_int folder_id @ ''/manageACL'')
         (Some [(''mappingId'', PyStr object_id), (''mappingType'', PyStr object_type),
                (''manageAcl'', PyBool True)])
   \<and> issues (remove_group_folder_advanced_permissions env folder_id object_id object_type w) env w
         ''POST'' (''/apps/groupfolders/folders/'' @ str_int folder_id @ ''/manageACL'')
         (Some [(''mappingId'', PyStr object_id), (''mappingType'', PyStr object_type),
                (''manageAcl'', PyBool False)])
   \<and> issues (set_group_folder_permissions env folder_id group_id permissions w) env w
         ''POST'' (''/apps/groupfolders/folders/'' @ str_int folder_id @ ''/groups/'' @ group_id)
         (Some [(''permissions'', PyInt (int_value permissions))])
   \<and> issues (set_group_folder_quota env folder_id quota w) env w
         ''POST'' (''/apps/groupfolders/folders/'' @ str_int folder_id @ ''/quota'')
         (Some [(''quota'', PyInt quota)])
   \<and> issues (rename_group_folder env folder_id mountpoint w) env w
         ''POST'' (''/apps/groupfolders/folders/'' @ str_int folder_id @ ''/mountpoint'')
         (Some [(''mountpoint'', PyStr mountpoint)])
   \<and> issues (set_group_folder_quota env 5 (- 3) w) env w
         ''POST'' ''/apps/groupfolders/folders/5/quota'' (Some [(''quota'', PyInt (- 3))])
   \<and> issues (set_group_folder_permissions env 5 ''staff'' (por read update) w) env w
         ''POST'' ''/apps/groupfolders/folders/5/groups/staff'' (Some [(''permissions'', PyInt 3)])"
  unfolding get_all_group_folders_def create_group_folder_def get_group_folder_def
    remove_group_folder_def add_group_to_group_folder_def remove_group_from_group_folder_def
    enable_group_folder_advanced_permissions_def disable_group_folder_advanced_permissions_def
    advanced_permissions_def add_group_folder_advanced_permissions_def
    remove_group_folder_advanced_permissions_def advanced_permissions_admin_def
    set_group_folder_permissions_def set_group_folder_quota_def rename_group_folder_def
  by (simp add: issues_ocs_query str_int_5 por_def read_def update_def
        issues_ocs_query [of env "''POST''" "''/apps/groupfolders/folders/5/quota''", simplified]
        issues_ocs_query [of env "''POST''" "''/apps/groupfolders/folders/5/groups/staff''", simplified])

section \<open>Properties of Permissions\<close>

lemma exp_and_cases: "(2 ^ k AND v = (0::int)) \<or> (2 ^ k AND v = (2 ^ k :: int))"
proof (cases "bit v k")
  case True
  have "2 ^ k AND v = (2 ^ k :: int)"
    by (rule bit_eqI) (use True in \<open>auto simp add: bit_and_iff bit_exp_iff\<close>)
  then show ?thesis ..
next
  case False
  then have "v AND 2 ^ k = 0" by (simp add: and_exp_eq_0_iff_not_bit)
  then show ?thesis by (simp add: and.commute)
qed

lemma exp_and_eq_iff: "(2 ^ k AND v = (2 ^ k :: int)) \<longleftrightarrow> bit v k"
proof
  assume "2 ^ k AND v = (2 ^ k :: int)"
  then have "v AND 2 ^ k \<noteq> 0" by (simp add: and.commute)
  then show "bit v k" by (simp add: and_exp_eq_0_iff_not_bit)
next
  assume b: "bit v k"
  show "2 ^ k AND v = (2 ^ k :: int)"
    by (rule bit_eqI) (use b in \<open>auto simp add: bit_and_iff bit_exp_iff\<close>)
qed

lemma member_value: "m \<in> set members \<Longrightarrow> \<exists>k. int_value m = 2 ^ k"
proof -
  have "(1::int) = 2 ^ 0" "(2::int) = 2 ^ 1" "(4::int) = 2 ^ 2" "(8::int) = 2 ^ 3" "(16::int) = 2 ^ 4"
    by simp_all
  moreover assume "m \<in> set members"
  ultimately show ?thesis
    unfolding members_def read_def update_def create_def delete_def share_def
    by (metis int_value.simps set_ConsD empty_iff empty_set)
qed

lemma contains_por:
  assumes "m \<in> set members"
  shows "contains (por a b) m \<longleftrightarrow> contains a m \<or> contains b m"
proof -
  obtain k where k: "int_value m = 2 ^ k" using member_value [OF assms] ..
  show ?thesis
    by (simp add: contains_def por_def k exp_and_eq_iff bit_or_iff)
qed

lemma permission_set_por: "permission_set (por a b) = permission_set a \<union> permission_set b"
  by (auto simp add: permission_set_def contains_por)

lemma contains_member_iff:
  "m \<in> set members \<Longrightarrow> m' \<in> set members \<Longrightarrow> contains m m' \<longleftrightarrow> m = m'"
  by (auto simp add: members_def contains_def read_def update_def create_def delete_def share_def)

lemma permission_set_member: "m \<in> set members \<Longrightarrow> permission_set m = {m}"
  by (auto simp add: permission_set_def contains_member_iff)

lemma permission_set_empty: "permission_set (Permissions 0) = {}"
  by (auto simp add: permission_set_def members_def contains_def read_def update_def create_def delete_def share_def)

lemma combine_snoc: "combine (ms @ [m]) = por (combine ms) m"
  by (simp add: combine_def)

lemma permission_set_combine:
  "set ms \<subseteq> set members \<Longrightarrow> permission_set (combine ms) = set ms"
proof (induction ms rule: rev_induct)
  case Nil
  then show ?case by (simp add: combine_def permission_set_empty)
next
  case (snoc m ms)
  then show ?case
    by (simp add: combine_snoc permission_set_por permission_set_member)
qed

lemma por_absorb:
  assumes "m \<in> set members" "contains p m"
  shows "int_value (por p m) = int_value p"
proof -
  from assms(2) have "int_value m AND int_value p = int_value m" by (simp add: contains_def)
  then have "\<And>n. bit (int_value m) n \<Longrightarrow> bit (int_value p) n"
    by (metis bit_and_iff)
  then have "int_value p OR int_value m = int_value p"
    by (auto intro!: bit_eqI simp add: bit_or_iff)
  then show ?thesis by (simp add: por_def)
qed

lemma por_add:
  assumes "m \<in> set members" "\<not> contains p m"
  shows "int_value (por p m) = int_value p + int_value m"
proof -
  obtain k where k: "int_value m = 2 ^ k" using member_value [OF assms(1)] ..
  from assms(2) have "int_value m AND int_value p = 0"
    using exp_and_cases [of k "int_value p"] by (simp add: contains_def k)
  then have "int_value p AND int_value m = 0" by (simp add: and.commute)
  with plus_and_or [of "int_value p" "int_value m"]
  show ?thesis by (simp add: por_def)
qed

lemma value_combine:
  "set ms \<subseteq> set members \<Longrightarrow> int_value (combine ms) = (\<Sum>m\<in>set ms. int_value m)"
proof (induction ms rule: rev_induct)
  case Nil
  then show ?case by (simp add: combine_def)
next
  case (snoc m ms)
  then have sub: "set ms \<subseteq> set members" and m: "m \<in> set members" by simp_all
  have ps: "permission_set (combine ms) = set ms" using sub by (rule permission_set_combine)
  show ?case
  proof (cases "m \<in> set ms")
    case True
    then have "contains (combine ms) m" using ps by (auto simp add: permission_set_def)
    then have "int_value (combine (ms @ [m])) = int_value (combine ms)"
      using m by (simp add: combine_snoc por_absorb)
    moreover have "set (ms @ [m]) = set ms" using True by auto
    ultimately show ?thesis using snoc.IH [OF sub] by simp
  next
    case False
    then have "\<not> contains (combine ms) m" using ps m by (auto simp add: permission_set_def)
    then have "int_value (combine (ms @ [m])) = int_value (combine ms) + int_value m"
      using m by (simp add: combine_snoc por_add)
    then show ?thesis using snoc.IH [OF sub] False by simp
  qed
qed

text \<open>
  Claim C10. The five flags have the values 1, 2, 4, 8 and 16. Combining with \<^verbatim>\<open>|\<close> is
  union on the set of flags a value contains, and is commutative, associative and
  idempotent. A combination of named flags contains exactly those flags and its
  integer value is the sum of the values of the distinct flags in it. In particular
  \<^verbatim>\<open>read | update\<close> has the value 3.
\<close>

theorem permissions_flags:
  "int_value read = 1 \<and> int_value update = 2 \<and> int_value create = 4
     \<and> int_value delete = 8 \<and> int_value share = 16
   \<and> permission_set (por a b) = permission_set a \<union> permission_set b
   \<and> por a b = por b a
   \<and> por (por a b) c = por a (por b c)
   \<and> por a a = a
   \<and> (set ms \<subseteq> set members \<longrightarrow>
        permission_set (combine ms) = set ms
        \<and> int_value (combine ms) = (\<Sum>m\<in>set ms. int_value m))
   \<and> int_value (por read update) = 3"
proof -
  have idem: "por a a = a" by (cases a) (simp add: por_def)
  have comm: "por a b = por b a" by (simp add: por_def or.commute)
  have assoc: "por (por a b) c = por a (por b c)" by (simp add: por_def or.assoc)
  have three: "int_value (por read update) = 3" by (simp add: por_def read_def update_def)
  have vals: "int_value read = 1 \<and> int_value update = 2 \<and> int_value create = 4
     \<and> int_value delete = 8 \<and> int_value share = 16"
    by (simp add: read_def update_def create_def delete_def share_def)
  have sets: "set ms \<subseteq> set members \<longrightarrow>
        permission_set (combine ms) = set ms
        \<and> int_value (combine ms) = (\<Sum>m\<in>set ms. int_value m)"
    using permission_set_combine value_combine by blast
  from vals permission_set_por [of a b] comm assoc idem sets three show ?thesis
    by blast
qed

theorem permissions_flags_witness:
  "set [read, update, read] \<subseteq> set members
   \<and> permission_set (combine [read, update, read]) = {read, update}
   \<and> int_value (combine [read, update, read]) = 3"
proof -
  have sub: "set [read, update, read] \<subseteq> set members" by (simp add: members_def)
  have ne: "read \<noteq> update" by (simp add: read_def update_def)
  have e: "set [read, update, read] = {read, update}" by auto
  have s: "(\<Sum>m\<in>set [read, update, read]. int_value m) = 3"
    unfolding e using ne by (simp add: read_def update_def)
  from permissions_flags [of _ _ _ "[read, update, read]"] sub
  have "permission_set (combine [read, update, read]) = set [read, update, read]"
    and "int_value (combine [read, update, read]) = (\<Sum>m\<in>set [read, update, read]. int_value m)"
    by blast+
  with sub s show ?thesis by auto
qed

end
